theory Spec2Isabelle
  imports Complex_Main "HOL-Library.AList"
begin

section \<open>Values stored in a form object\<close>

text \<open>
  A JavaScript number is \<open>NaN\<close>, one of the two infinities, or a finite value. Every finite
  double is a rational, and the validator only compares numbers and tests them for
  truthiness, so a finite number is modelled by the rational it denotes (\<open>-0\<close> and \<open>0\<close>
  compare equal and are both falsy, so they are one value here).
\<close>

datatype number = NaN | NegInf | Fin rat | PosInf

text \<open>The relational operator \<open><\<close> on numbers: every comparison with \<open>NaN\<close> is false.\<close>

fun js_lt :: "number \<Rightarrow> number \<Rightarrow> bool" where
  "js_lt NaN b = False"
| "js_lt a NaN = False"
| "js_lt (Fin a) (Fin b) = (a < b)"
| "js_lt NegInf NegInf = False"
| "js_lt NegInf b = True"
| "js_lt a NegInf = False"
| "js_lt PosInf b = False"
| "js_lt a PosInf = True"

text \<open>\<open>a > b\<close> on numbers is \<open>b < a\<close>.\<close>

definition js_gt :: "number \<Rightarrow> number \<Rightarrow> bool" where
  "js_gt a b = js_lt b a"

text \<open>
  A \<open>Date\<close> object holds a time value: milliseconds since the epoch, or \<open>NaN\<close> for an
  invalid date.
\<close>

datatype jsdate = DateMs int | DateNaN

text \<open>
  The values a field can hold (\<open>value: any\<close>). Strings are lists of characters, one
  character per code unit, so \<open>length\<close> is the \<open>length\<close> property.
\<close>

datatype jsval =
    JUndefined
  | JNull
  | JBool bool
  | JNum number
  | JStr string
  | JDate jsdate
  | JArr "jsval list"
  | JObj "(string \<times> jsval) list"

text \<open>Truthiness, as the \<open>&&\<close> operator and \<open>if\<close> test it.\<close>

fun truthy :: "jsval \<Rightarrow> bool" where
  "truthy JUndefined = False"
| "truthy JNull = False"
| "truthy (JBool b) = b"
| "truthy (JNum n) = (n \<noteq> NaN \<and> n \<noteq> Fin 0)"
| "truthy (JStr s) = (s \<noteq> [])"
| "truthy (JDate d) = True"
| "truthy (JArr xs) = True"
| "truthy (JObj kvs) = True"

text \<open>
  \<open>String.prototype.trim\<close> removes leading and trailing white space. Among the code units
  below 256 the white space and line terminator characters are tab, line feed, vertical
  tab, form feed, carriage return, space and no-break space.
\<close>

definition isWhiteSpaceChar :: "char \<Rightarrow> bool" where
  "isWhiteSpaceChar c = ((of_char c :: nat) \<in> {9, 10, 11, 12, 13, 32, 160})"

definition trim :: "string \<Rightarrow> string" where
  "trim s = rev (dropWhile isWhiteSpaceChar (rev (dropWhile isWhiteSpaceChar s)))"

section \<open>Types of the validator\<close>

text \<open>
  \<open>ValidationSpecs\<close>: six optional keys, each holding a value of its declared type or
  absent (\<open>None\<close>, read as \<open>undefined\<close>).
\<close>

record ValidationSpecs =
  minLength :: "number option"
  maxLength :: "number option"
  minValue :: "number option"
  maxValue :: "number option"
  minDate :: "jsdate option"
  maxDate :: "jsdate option"

text \<open>The object literal \<open>{}\<close>.\<close>

definition noSpecs :: ValidationSpecs where
  "noSpecs = \<lparr>minLength = None, maxLength = None, minValue = None, maxValue = None,
     minDate = None, maxDate = None\<rparr>"

text \<open>\<open>ValidationErrors\<close>: the error codes (\<open>"empty"\<close> is \<open>emptyCode\<close> here).\<close>

datatype ValidationErrors =
    emptyCode
  | invalidDate
  | isWhitespace
  | invalidEmail
  | weakPassword
  | beforeMinDate
  | afterMaxDate
  | lessThanMinLength
  | moreThanMaxLength
  | lessThanMinValue
  | moreThanMaxValue
  | invalidInput
  | invalidPhoneNumber

text \<open>\<open>ModelFieldError\<close>: \<open>{ errorCode, specs? }\<close>; the optional key is \<open>errorSpecs\<close> here.\<close>

record ModelFieldError =
  errorCode :: ValidationErrors
  errorSpecs :: "ValidationSpecs option"

text \<open>
  \<open>ModelErrors\<close>: the error object, addressed by field name. A key that was never written
  reads as \<open>undefined\<close> (\<open>None\<close>); names inherited from \<open>Object.prototype\<close> are outside the
  model.
\<close>

type_synonym ModelErrors = "string \<rightharpoonup> ModelFieldError"

text \<open>
  \<open>ValidatorModelItem\<close>. The constructor assigns \<open>name\<close> only when the name is a non-empty
  string, so \<open>name\<close> may stay \<open>undefined\<close> (\<open>None\<close>).
\<close>

record ValidatorModelItem =
  name :: "string option"
  "value" :: jsval
  specs :: ValidationSpecs
  validations :: "string list"

definition newValidatorModelItem :: "string \<Rightarrow> jsval \<Rightarrow> ValidatorModelItem" where
  "newValidatorModelItem n v =
     (if n \<noteq> [] then \<lparr>name = Some n, value = v, specs = noSpecs, validations = []\<rparr>
      else \<lparr>name = None, value = JNull, specs = noSpecs, validations = []\<rparr>)"

text \<open>
  The property key that \<open>formObjectErrors[item.name]\<close> addresses: an \<open>undefined\<close> name is
  converted to the string \<open>"undefined"\<close>.
\<close>

definition errorKey :: "ValidatorModelItem \<Rightarrow> string" where
  "errorKey it = (case name it of None \<Rightarrow> ''undefined'' | Some n \<Rightarrow> n)"

text \<open>\<open>CustomValidator\<close>: \<open>{ fields, errorFields, validator }\<close>; \<open>fields\<close> is \<open>fieldsCV\<close> here.\<close>

record CustomValidator =
  fieldsCV :: "string list"
  errorFields :: "string list"
  validator :: "jsval list \<Rightarrow> ModelFieldError option"

text \<open>
  \<open>FormValidator\<close>: \<open>formObject\<close> is a \<open>Map\<close>, iterated in insertion order, so it is an
  association list; \<open>has\<close> and \<open>get\<close> are \<open>map_of\<close>.
\<close>

record FormValidator =
  formObject :: "(string \<times> ValidatorModelItem) list"
  formObjectErrors :: ModelErrors
  customValidators :: "CustomValidator list"

text \<open>The exception a call on a missing method raises.\<close>

datatype exn = TypeError

section \<open>Imported helpers\<close>

text \<open>
  The predicates \<open>isEmail\<close>, \<open>isPhoneNumber\<close>, \<open>isStrongPassword\<close> and the function
  \<open>clearTime\<close> are imported from modules outside this file; they are parameters of the
  model.
\<close>

record helpers =
  isEmail :: "jsval \<Rightarrow> bool"
  isPhoneNumber :: "jsval \<Rightarrow> bool"
  isStrongPassword :: "jsval \<Rightarrow> bool"
  clearTime :: "jsdate \<Rightarrow> jsdate"

text \<open>
  Modelled from the spec: \<open>isEmpty\<close> (imported from \<open>./isEmpty\<close>), the emptiness test that
  "distinguishes empty string/array/object/null/undefined from populated values".
\<close>

fun isEmpty :: "jsval \<Rightarrow> bool" where
  "isEmpty JUndefined = True"
| "isEmpty JNull = True"
| "isEmpty (JStr s) = (s = [])"
| "isEmpty (JArr xs) = (xs = [])"
| "isEmpty (JObj kvs) = (kvs = [])"
| "isEmpty (JBool b) = False"
| "isEmpty (JNum n) = False"
| "isEmpty (JDate d) = False"

text \<open>
  Modelled from the spec: \<open>isEmpty\<close> applied to the result of \<open>validateField\<close>, which is
  \<open>null\<close> (empty) or an object with the key \<open>errorCode\<close> (populated).
\<close>

definition isEmptyError :: "ModelFieldError option \<Rightarrow> bool" where
  "isEmptyError fe = (case fe of None \<Rightarrow> True | Some e \<Rightarrow> False)"

text \<open>
  Modelled from the spec: \<open>isEmpty\<close> applied to the optional \<open>specs\<close> argument, which is
  \<open>undefined\<close> (empty), an object without keys (empty) or an object with keys (populated).
\<close>

definition isEmptySpecs :: "ValidationSpecs option \<Rightarrow> bool" where
  "isEmptySpecs sp =
     (case sp of None \<Rightarrow> True
      | Some x \<Rightarrow> minLength x = None \<and> maxLength x = None \<and> minValue x = None \<and>
          maxValue x = None \<and> minDate x = None \<and> maxDate x = None)"

text \<open>
  \<open>moment(a).isBefore(b)\<close> and \<open>moment(a).isAfter(b)\<close> of the moment library: a comparison
  of the two time values, false when either date is invalid.
\<close>

fun isBefore :: "jsdate \<Rightarrow> jsdate \<Rightarrow> bool" where
  "isBefore (DateMs a) (DateMs b) = (a < b)"
| "isBefore a b = False"

fun isAfter :: "jsdate \<Rightarrow> jsdate \<Rightarrow> bool" where
  "isAfter (DateMs a) (DateMs b) = (a > b)"
| "isAfter a b = False"

section \<open>The validator\<close>

subsection \<open>Construction\<close>

text \<open>
  The form object is an object (\<open>typeof formObject === "object"\<close>), given by its own
  enumerable properties in enumeration order. \<open>deepCopy\<close> is the identity on values.
  \<open>Map.set\<close> is \<open>AList.update\<close>: a key that is already there keeps its place.
\<close>

definition newFormValidator :: "(string \<times> jsval) list \<Rightarrow> FormValidator" where
  "newFormValidator obj =
     \<lparr>formObject =
        (if \<not> isEmpty (JObj obj)
         then fold (\<lambda>(field, v) m. AList.update field (newValidatorModelItem field v) m) obj []
         else []),
      formObjectErrors = Map.empty,
      customValidators = []\<rparr>"

subsection \<open>Registration\<close>

definition isValidType :: "string \<Rightarrow> bool" where
  "isValidType t = (t \<in> set [''required'', ''isDate'', ''noWhitespace'', ''dateRange'',
     ''textLength'', ''valueRange'', ''validEmail'', ''strongPassword'', ''isPhoneNumber''])"

text \<open>The spread \<open>{ ...a, ...b }\<close>: a key of \<open>b\<close> overwrites the same key of \<open>a\<close>.\<close>

definition spreadKey :: "'a option \<Rightarrow> 'a option \<Rightarrow> 'a option" where
  "spreadKey a b = (case b of None \<Rightarrow> a | Some v \<Rightarrow> Some v)"

definition spread :: "ValidationSpecs \<Rightarrow> ValidationSpecs \<Rightarrow> ValidationSpecs" where
  "spread a b =
     \<lparr>minLength = spreadKey (minLength a) (minLength b),
      maxLength = spreadKey (maxLength a) (maxLength b),
      minValue = spreadKey (minValue a) (minValue b),
      maxValue = spreadKey (maxValue a) (maxValue b),
      minDate = spreadKey (minDate a) (minDate b),
      maxDate = spreadKey (maxDate a) (maxDate b)\<rparr>"

text \<open>The body of the callback of \<open>fields.map\<close>, on the item found under the field.\<close>

definition register :: "string \<Rightarrow> ValidationSpecs option \<Rightarrow> ValidatorModelItem \<Rightarrow> ValidatorModelItem" where
  "register t sp it =
     (let it1 = it\<lparr>validations := validations it @ [t]\<rparr>
      in if \<not> isEmptySpecs sp then it1\<lparr>specs := spread (specs it1) (the sp)\<rparr> else it1)"

definition addValidationField ::
  "string \<Rightarrow> ValidationSpecs option \<Rightarrow> string \<Rightarrow> (string \<times> ValidatorModelItem) list
     \<Rightarrow> (string \<times> ValidatorModelItem) list" where
  "addValidationField t sp field m =
     (if map_of m field \<noteq> None then AList.map_entry field (register t sp) m else m)"

definition addValidation ::
  "string list \<Rightarrow> string \<Rightarrow> ValidationSpecs option \<Rightarrow> FormValidator \<Rightarrow> FormValidator" where
  "addValidation fs t sp s =
     (if t \<noteq> [] \<and> isValidType t
      then (if fs \<noteq> [] then s\<lparr>formObject := fold (addValidationField t sp) fs (formObject s)\<rparr>
            else s)
      else s)"

definition addCustomValidator ::
  "string list \<Rightarrow> string list \<Rightarrow> (jsval list \<Rightarrow> ModelFieldError option) \<Rightarrow> FormValidator
     \<Rightarrow> FormValidator" where
  "addCustomValidator fs efs v s =
     (if fs \<noteq> [] \<and> efs \<noteq> []
      then s\<lparr>customValidators :=
               customValidators s @ [\<lparr>fieldsCV = fs, errorFields = efs, validator = v\<rparr>]\<rparr>
      else s)"

subsection \<open>Error accessors\<close>

definition getErrors :: "FormValidator \<Rightarrow> ModelErrors" where
  "getErrors s = formObjectErrors s"

definition getError :: "string \<Rightarrow> FormValidator \<Rightarrow> ModelFieldError option" where
  "getError n s = formObjectErrors s n"

subsection \<open>Rule predicates\<close>

text \<open>Truthiness of an optional numeric bound: absent, \<open>0\<close> and \<open>NaN\<close> are falsy.\<close>

definition truthyBound :: "number option \<Rightarrow> bool" where
  "truthyBound b = (case b of None \<Rightarrow> False | Some n \<Rightarrow> truthy (JNum n))"

text \<open>Truthiness of an optional date bound: a \<open>Date\<close> object is truthy, absent is falsy.\<close>

definition truthyDate :: "jsdate option \<Rightarrow> bool" where
  "truthyDate b = (case b of None \<Rightarrow> False | Some d \<Rightarrow> truthy (JDate d))"

definition simpleError :: "ValidationErrors \<Rightarrow> ModelFieldError" where
  "simpleError c = \<lparr>errorCode = c, errorSpecs = None\<rparr>"

definition specsError :: "ValidationErrors \<Rightarrow> ValidationSpecs \<Rightarrow> ModelFieldError" where
  "specsError c sp = \<lparr>errorCode = c, errorSpecs = Some sp\<rparr>"

text \<open>
  The three range rules share one shape: the minimum is tested when its bound is truthy,
  the maximum when no error was found and its bound is truthy.
\<close>

definition dateRange :: "helpers \<Rightarrow> jsdate \<Rightarrow> ValidationSpecs \<Rightarrow> ModelFieldError option" where
  "dateRange H d sp =
     (let fieldError =
            (if truthyDate (minDate sp)
             then (if isBefore (clearTime H d) (clearTime H (the (minDate sp)))
                   then Some (specsError beforeMinDate (noSpecs\<lparr>minDate := minDate sp\<rparr>))
                   else None)
             else None)
      in if fieldError = None \<and> truthyDate (maxDate sp)
         then (if isAfter (clearTime H d) (clearTime H (the (maxDate sp)))
               then Some (specsError afterMaxDate (noSpecs\<lparr>maxDate := maxDate sp\<rparr>))
               else None)
         else fieldError)"

definition textLength :: "string \<Rightarrow> ValidationSpecs \<Rightarrow> ModelFieldError option" where
  "textLength v sp =
     (let len = Fin (of_nat (length v));
          fieldError =
            (if truthyBound (minLength sp)
             then (if js_lt len (the (minLength sp))
                   then Some (specsError lessThanMinLength (noSpecs\<lparr>minLength := minLength sp\<rparr>))
                   else None)
             else None)
      in if fieldError = None \<and> truthyBound (maxLength sp)
         then (if js_gt len (the (maxLength sp))
               then Some (specsError moreThanMaxLength (noSpecs\<lparr>maxLength := maxLength sp\<rparr>))
               else None)
         else fieldError)"

definition valueRange :: "number \<Rightarrow> ValidationSpecs \<Rightarrow> ModelFieldError option" where
  "valueRange v sp =
     (let fieldError =
            (if truthyBound (minValue sp)
             then (if js_lt v (the (minValue sp))
                   then Some (specsError lessThanMinValue (noSpecs\<lparr>minValue := minValue sp\<rparr>))
                   else None)
             else None)
      in if fieldError = None \<and> truthyBound (maxValue sp)
         then (if js_gt v (the (maxValue sp))
               then Some (specsError moreThanMaxValue (noSpecs\<lparr>maxValue := maxValue sp\<rparr>))
               else None)
         else fieldError)"

text \<open>
  \<open>noWhitespace\<close>: \<open>value && value.trim() === "" ? error : null\<close>. A falsy value yields
  \<open>null\<close>; a truthy value that is not a string has no method \<open>trim\<close>, and the call raises.
\<close>

definition noWhitespace :: "jsval \<Rightarrow> exn + ModelFieldError option" where
  "noWhitespace v =
     (if truthy v
      then (case v of
              JStr s \<Rightarrow> Inr (if trim s = [] then Some (simpleError isWhitespace) else None)
            | _ \<Rightarrow> Inl TypeError)
      else Inr None)"

definition validateField ::
  "helpers \<Rightarrow> jsval \<Rightarrow> string \<Rightarrow> ValidationSpecs \<Rightarrow> exn + ModelFieldError option" where
  "validateField H v t sp =
     (if t = ''required'' then Inr (if isEmpty v then Some (simpleError emptyCode) else None)
      else if t = ''isDate'' then
        Inr (case v of JDate d \<Rightarrow> None | _ \<Rightarrow> Some (simpleError invalidDate))
      else if t = ''noWhitespace'' then noWhitespace v
      else if t = ''dateRange'' then
        Inr (case v of JDate d \<Rightarrow> dateRange H d sp | _ \<Rightarrow> Some (simpleError invalidDate))
      else if t = ''textLength'' then
        Inr (case v of JStr s \<Rightarrow> textLength s sp | _ \<Rightarrow> Some (simpleError invalidInput))
      else if t = ''valueRange'' then
        Inr (case v of JNum n \<Rightarrow> valueRange n sp | _ \<Rightarrow> Some (simpleError invalidInput))
      else if t = ''validEmail'' then
        Inr (if isEmail H v then None else Some (simpleError invalidEmail))
      else if t = ''strongPassword'' then
        Inr (if isStrongPassword H v then None else Some (simpleError weakPassword))
      else if t = ''isPhoneNumber'' then
        Inr (if isPhoneNumber H v then None else Some (simpleError invalidPhoneNumber))
      else Inr None)"

subsection \<open>Evaluation\<close>

text \<open>
  The \<open>do ... while\<close> loop of \<open>validate\<close> on one item, from rule \<open>i\<close> on; the list holds
  \<open>validations[i], validations[i+1], ...\<close>. The body runs, then the loop goes on while
  rules are left and \<open>formObjectErrors[item.name]\<close> is truthy, that is, while the field
  has an entry. An exception leaves the loop with the error object as it is.
  \<open>recordError\<close> is the conditional assignment in the body.
\<close>

definition recordError ::
  "ValidatorModelItem \<Rightarrow> ModelFieldError option \<Rightarrow> ModelErrors \<Rightarrow> ModelErrors" where
  "recordError it fieldError errs =
     (if \<not> isEmptyError fieldError then errs(errorKey it \<mapsto> the fieldError) else errs)"

fun validateLoop ::
  "helpers \<Rightarrow> ValidatorModelItem \<Rightarrow> string list \<Rightarrow> ModelErrors \<Rightarrow> (exn \<times> ModelErrors) + ModelErrors" where
  "validateLoop H it [] errs = Inr errs"
| "validateLoop H it (t # ts) errs =
     (case validateField H (value it) t (specs it) of
        Inl e \<Rightarrow> Inl (e, errs)
      | Inr fieldError \<Rightarrow>
          (let errs1 = recordError it fieldError errs
           in if ts \<noteq> [] \<and> errs1 (errorKey it) \<noteq> None
              then validateLoop H it ts errs1 else Inr errs1))"

text \<open>\<open>formObject.forEach\<close>: the items in insertion order; those without rules are skipped.\<close>

fun validateItems ::
  "helpers \<Rightarrow> (string \<times> ValidatorModelItem) list \<Rightarrow> ModelErrors \<Rightarrow> (exn \<times> ModelErrors) + ModelErrors" where
  "validateItems H [] errs = Inr errs"
| "validateItems H ((k, it) # m) errs =
     (if validations it \<noteq> []
      then (case validateLoop H it (validations it) errs of
              Inl x \<Rightarrow> Inl x
            | Inr errs1 \<Rightarrow> validateItems H m errs1)
      else validateItems H m errs)"

text \<open>
  \<open>validate\<close> returns the validator (\<open>Inr\<close>), or raises (\<open>Inl\<close>) and leaves the validator
  with the errors written so far.
\<close>

definition validate :: "helpers \<Rightarrow> FormValidator \<Rightarrow> (exn \<times> FormValidator) + FormValidator" where
  "validate H s =
     (case validateItems H (formObject s) (formObjectErrors s) of
        Inl (e, errs) \<Rightarrow> Inl (e, s\<lparr>formObjectErrors := errs\<rparr>)
      | Inr errs \<Rightarrow> Inr (s\<lparr>formObjectErrors := errs\<rparr>))"

text \<open>What a call leaves behind, whether it returned or raised.\<close>

fun written :: "(exn \<times> 'a) + 'a \<Rightarrow> 'a" where
  "written (Inl (e, x)) = x"
| "written (Inr x) = x"

subsection \<open>Concrete helpers\<close>

text \<open>
  Modelled from the spec: \<open>clearTime\<close> (imported from \<open>./clearTime\<close>), the "date-only
  truncation (strips time-of-day)", here on days of 86400000 milliseconds counted from
  the epoch.
\<close>

fun clearTimeDay :: "jsdate \<Rightarrow> jsdate" where
  "clearTimeDay (DateMs t) = DateMs (t - t mod 86400000)"
| "clearTimeDay DateNaN = DateNaN"

text \<open>
  An instance of the imported helpers, for evaluating the model on concrete inputs. The
  theorems below hold for every instance.
\<close>

definition sampleHelpers :: helpers where
  "sampleHelpers =
     \<lparr>isEmail = (\<lambda>v. case v of JStr s \<Rightarrow> CHR ''@'' \<in> set s | _ \<Rightarrow> False),
      isPhoneNumber = (\<lambda>v. case v of JStr s \<Rightarrow> s \<noteq> [] \<and> list_all (\<lambda>c. c \<in> set ''0123456789'') s | _ \<Rightarrow> False),
      isStrongPassword = (\<lambda>v. case v of JStr s \<Rightarrow> 8 \<le> length s | _ \<Rightarrow> False),
      clearTime = clearTimeDay\<rparr>"

subsection \<open>Sample validators\<close>

text \<open>\<open>{ name: "", age: 15 }\<close> with \<open>valueRange\<close> from 18 on \<open>age\<close> and \<open>required\<close> on \<open>name\<close>.\<close>

definition ageForm :: FormValidator where
  "ageForm =
     addValidation [''name''] ''required'' None
       (addValidation [''age''] ''valueRange'' (Some (noSpecs\<lparr>minValue := Some (Fin 18)\<rparr>))
          (newFormValidator [(''name'', JStr []), (''age'', JNum (Fin 15))]))"

definition ageFormErrors :: ModelErrors where
  "ageFormErrors =
     [''name'' \<mapsto> simpleError emptyCode,
      ''age'' \<mapsto> specsError lessThanMinValue (noSpecs\<lparr>minValue := Some (Fin 18)\<rparr>)]"

text \<open>\<open>{ a: 5 }\<close> with \<open>isDate\<close>, then \<open>textLength\<close> from 3, on \<open>a\<close>: both rules fail on 5.\<close>

definition twoFailingForm :: FormValidator where
  "twoFailingForm =
     addValidation [''a''] ''textLength'' (Some (noSpecs\<lparr>minLength := Some (Fin 3)\<rparr>))
       (addValidation [''a''] ''isDate'' None (newFormValidator [(''a'', JNum (Fin 5))]))"

text \<open>\<open>{ a: 5 }\<close> with \<open>valueRange\<close> up to 10, then \<open>isDate\<close>, on \<open>a\<close>: the second rule fails.\<close>

definition passThenFailForm :: FormValidator where
  "passThenFailForm =
     addValidation [''a''] ''isDate'' None
       (addValidation [''a''] ''valueRange'' (Some (noSpecs\<lparr>maxValue := Some (Fin 10)\<rparr>))
          (newFormValidator [(''a'', JNum (Fin 5))]))"

text \<open>\<open>{ a: 5 }\<close> with \<open>noWhitespace\<close> on \<open>a\<close>.\<close>

definition numberForm :: FormValidator where
  "numberForm = addValidation [''a''] ''noWhitespace'' None (newFormValidator [(''a'', JNum (Fin 5))])"





text \<open>
  \<open>{ undefined: 5, "": "x" }\<close> with \<open>valueRange\<close> up to 10, \<open>isDate\<close> and \<open>noWhitespace\<close> on the
  field \<open>undefined\<close> and \<open>required\<close> on the field with the empty name. The item of the empty
  name has no name, so both items address the key \<open>"undefined"\<close> of the error map.
\<close>

definition sharedKeyForm :: FormValidator where
  "sharedKeyForm =
     addValidation [''''] ''required'' None
       (addValidation [''undefined''] ''noWhitespace'' None
          (addValidation [''undefined''] ''isDate'' None
             (addValidation [''undefined''] ''valueRange''
                (Some (noSpecs\<lparr>maxValue := Some (Fin 10)\<rparr>))
                (newFormValidator [(''undefined'', JNum (Fin 5)), ('''', JStr ''x'')]))))"

text \<open>\<open>{ "": "x" }\<close>: one field, with the empty name.\<close>

definition emptyNameForm :: FormValidator where
  "emptyNameForm = newFormValidator [('''', JStr ''x'')]"

section \<open>Evaluation on concrete validators\<close>

lemmas model_defs =
  newFormValidator_def newValidatorModelItem_def addValidation_def addValidationField_def
  register_def isValidType_def isEmptySpecs_def spread_def spreadKey_def noSpecs_def
  validate_def validateField_def recordError_def isEmptyError_def errorKey_def
  simpleError_def specsError_def valueRange_def textLength_def dateRange_def
  noWhitespace_def truthyBound_def truthyDate_def js_gt_def getError_def getErrors_def
  trim_def isWhiteSpaceChar_def sampleHelpers_def addCustomValidator_def Let_def

lemma ageForm_validate:
  "validate H ageForm = Inr (ageForm\<lparr>formObjectErrors := ageFormErrors\<rparr>)"
  by (simp add: ageForm_def ageFormErrors_def model_defs)

section \<open>The loop of \<open>validate\<close> on one field\<close>

lemma recordError_apply:
  "recordError it fe errs k =
     (if k = errorKey it then (case fe of None \<Rightarrow> errs k | Some e \<Rightarrow> Some e) else errs k)"
  by (simp add: recordError_def isEmptyError_def split: option.splits)

lemma validateLoop_Cons:
  "validateField H (value it) t (specs it) = Inr fe \<Longrightarrow>
   validateLoop H it (t # ts) errs =
     (if ts \<noteq> [] \<and> recordError it fe errs (errorKey it) \<noteq> None
      then validateLoop H it ts (recordError it fe errs) else Inr (recordError it fe errs))"
  by (simp add: Let_def)

lemma validateLoop_frame:
  "k \<noteq> errorKey it \<Longrightarrow> written (validateLoop H it ts errs) k = errs k"
  by (induction ts arbitrary: errs) (auto simp: Let_def recordError_apply split: sum.splits)

lemma validateLoop_keeps_entry:
  "errs k \<noteq> None \<Longrightarrow> written (validateLoop H it ts errs) k \<noteq> None"
  by (induction ts arbitrary: errs) (auto simp: Let_def recordError_apply split: sum.splits option.splits)

lemma validateLoop_cong:
  "errs (errorKey it) = errs' (errorKey it) \<Longrightarrow>
   validateLoop H it ts errs = Inr a \<Longrightarrow> validateLoop H it ts errs' = Inr b \<Longrightarrow>
   a (errorKey it) = b (errorKey it)"
proof (induction ts arbitrary: errs errs')
  case Nil
  then show ?case by simp
next
  case (Cons t ts)
  from Cons.prems(2) obtain fe where fe: "validateField H (value it) t (specs it) = Inr fe"
    by (auto split: sum.splits)
  define e1 where "e1 = recordError it fe errs"
  define e1' where "e1' = recordError it fe errs'"
  have eq: "e1 (errorKey it) = e1' (errorKey it)"
    using Cons.prems(1) by (simp add: e1_def e1'_def recordError_apply split: option.splits)
  have r1: "(if ts \<noteq> [] \<and> e1 (errorKey it) \<noteq> None then validateLoop H it ts e1 else Inr e1) = Inr a"
    unfolding e1_def validateLoop_Cons[OF fe, symmetric] by (rule Cons.prems(2))
  have "(if ts \<noteq> [] \<and> e1' (errorKey it) \<noteq> None then validateLoop H it ts e1' else Inr e1') = Inr b"
    unfolding e1'_def validateLoop_Cons[OF fe, symmetric] by (rule Cons.prems(3))
  then have r2: "(if ts \<noteq> [] \<and> e1 (errorKey it) \<noteq> None then validateLoop H it ts e1' else Inr e1') = Inr b"
    by (simp only: eq)
  show ?case
  proof (cases "ts \<noteq> [] \<and> e1 (errorKey it) \<noteq> None")
    case True
    with r1 r2 have "validateLoop H it ts e1 = Inr a" "validateLoop H it ts e1' = Inr b"
      by simp_all
    with eq show ?thesis by (rule Cons.IH)
  next
    case False
    with r1 r2 have "a = e1" "b = e1'" by auto
    with eq show ?thesis by simp
  qed
qed

lemma validateLoop_sync:
  "validateLoop H it ts errs = Inr a \<Longrightarrow> validateLoop H it ts errs' = Inr b \<Longrightarrow>
   errs' (errorKey it) \<noteq> None \<Longrightarrow> a (errorKey it) \<noteq> errs (errorKey it) \<Longrightarrow>
   a (errorKey it) = b (errorKey it)"
proof (induction ts arbitrary: errs errs')
  case Nil
  then show ?case by simp
next
  case (Cons t ts)
  from Cons.prems(1) obtain fe where fe: "validateField H (value it) t (specs it) = Inr fe"
    by (auto split: sum.splits)
  define e1 where "e1 = recordError it fe errs"
  define e1' where "e1' = recordError it fe errs'"
  have r1: "(if ts \<noteq> [] \<and> e1 (errorKey it) \<noteq> None then validateLoop H it ts e1 else Inr e1) = Inr a"
    unfolding e1_def validateLoop_Cons[OF fe, symmetric] by (rule Cons.prems(1))
  have set': "e1' (errorKey it) \<noteq> None"
    using Cons.prems(3) by (simp add: e1'_def recordError_apply split: option.splits)
  have "(if ts \<noteq> [] \<and> e1' (errorKey it) \<noteq> None then validateLoop H it ts e1' else Inr e1') = Inr b"
    unfolding e1'_def validateLoop_Cons[OF fe, symmetric] by (rule Cons.prems(2))
  with set' have r2: "(if ts \<noteq> [] then validateLoop H it ts e1' else Inr e1') = Inr b"
    by simp
  show ?case
  proof (cases fe)
    case None
    then have same: "e1 = errs" "e1' = errs'"
      by (simp_all add: e1_def e1'_def recordError_def isEmptyError_def)
    with r1 Cons.prems(4) have go: "ts \<noteq> []" "validateLoop H it ts errs = Inr a"
      by (auto split: if_splits)
    with r2 same have "validateLoop H it ts errs' = Inr b" by simp
    with go(2) show ?thesis using Cons.prems(3,4) by (rule Cons.IH)
  next
    case (Some e)
    then have eq: "e1 (errorKey it) = e1' (errorKey it)"
      by (simp add: e1_def e1'_def recordError_apply)
    show ?thesis
    proof (cases "ts = []")
      case True
      with r1 r2 eq show ?thesis by auto
    next
      case False
      with r1 r2 eq set' have "validateLoop H it ts e1 = Inr a" "validateLoop H it ts e1' = Inr b"
        by simp_all
      with eq show ?thesis by (rule validateLoop_cong)
    qed
  qed
qed

lemma validateItems_keeps_entry:
  "errs k \<noteq> None \<Longrightarrow> written (validateItems H m errs) k \<noteq> None"
proof (induction m arbitrary: errs)
  case Nil
  then show ?case by simp
next
  case (Cons p m)
  obtain k0 it where p: "p = (k0, it)" by (cases p)
  have keep: "written (validateLoop H it (validations it) errs) k \<noteq> None"
    using Cons.prems validateLoop_keeps_entry[of errs k H it "validations it"] by simp
  show ?case
  proof (cases "validateLoop H it (validations it) errs")
    case (Inl x)
    with keep p Cons show ?thesis
      by (cases x) auto
  next
    case (Inr e1)
    with keep p Cons show ?thesis
      by auto
  qed
qed

lemma validateItems_lockstep:
  "validateItems H m errs = Inr a \<Longrightarrow> validateItems H m errs' = Inr b \<Longrightarrow>
   (\<And>k. errs k = errs' k \<or> (errs' k \<noteq> None \<and> a k \<noteq> errs k)) \<Longrightarrow> a = b"
proof (induction m arbitrary: errs errs')
  case Nil
  then show ?case by (auto intro: ext) 
next
  case (Cons p m)
  obtain k0 it where p: "p = (k0, it)" by (cases p)
  show ?case
  proof (cases "validations it = []")
    case True
    with p Cons.prems(1,2) have "validateItems H m errs = Inr a" "validateItems H m errs' = Inr b"
      by simp_all
    then show ?thesis using Cons.prems(3) by (rule Cons.IH)
  next
    case False
    with p Cons.prems(1) obtain e1 where e1: "validateLoop H it (validations it) errs = Inr e1"
      and r1: "validateItems H m e1 = Inr a"
      by (auto split: sum.splits)
    from False p Cons.prems(2) obtain e1' where e1': "validateLoop H it (validations it) errs' = Inr e1'"
      and r2: "validateItems H m e1' = Inr b"
      by (auto split: sum.splits)
    have fr: "e1 k = errs k \<and> e1' k = errs' k" if "k \<noteq> errorKey it" for k
      using validateLoop_frame[OF that, of H "validations it" errs]
        validateLoop_frame[OF that, of H "validations it" errs'] e1 e1'
      by simp
    have "e1 k = e1' k \<or> (e1' k \<noteq> None \<and> a k \<noteq> e1 k)" for k
    proof (cases "k = errorKey it")
      case False
      with fr[of k] Cons.prems(3)[of k] show ?thesis by simp
    next
      case True
      show ?thesis
      proof (cases "errs k = errs' k")
        case True
        with \<open>k = errorKey it\<close> e1 e1' validateLoop_cong[of errs it errs' H "validations it" e1 e1']
        show ?thesis by simp
      next
        case False
        with Cons.prems(3)[of k] have s: "errs' k \<noteq> None" "a k \<noteq> errs k" by auto
        from validateLoop_keeps_entry[of errs' k H it "validations it"] s(1) e1'
        have "e1' k \<noteq> None" by simp
        moreover have "e1 k \<noteq> errs k \<Longrightarrow> e1 k = e1' k"
          using validateLoop_sync[OF e1 e1'] s(1) \<open>k = errorKey it\<close> by simp
        ultimately show ?thesis using s(2) by auto
      qed
    qed
    with r1 r2 show ?thesis by (rule Cons.IH)
  qed
qed

lemma validateItems_twice:
  assumes "validateItems H m errs = Inr a" "validateItems H m a = Inr b"
  shows "b = a"
proof -
  have "errs k = a k \<or> (a k \<noteq> None \<and> a k \<noteq> errs k)" for k
    using validateItems_keeps_entry[of errs k H m] assms(1) by (cases "errs k") auto
  with assms show ?thesis using validateItems_lockstep[of H m errs a a b] by simp
qed


lemma validateLoop_returns:
  "(\<And>t. t \<in> set ts \<Longrightarrow> validateField H (value it) t (specs it) \<noteq> Inl TypeError) \<Longrightarrow>
   \<exists>a. validateLoop H it ts errs = Inr a"
proof (induction ts arbitrary: errs)
  case Nil
  then show ?case by simp
next
  case (Cons t ts)
  from Cons.prems[of t] obtain fe where fe: "validateField H (value it) t (specs it) = Inr fe"
    by (cases "validateField H (value it) t (specs it)") (auto intro: exn.exhaust)
  have "\<exists>a. validateLoop H it ts (recordError it fe errs) = Inr a"
    using Cons.prems by (intro Cons.IH) simp
  then show ?case unfolding validateLoop_Cons[OF fe] by auto
qed

lemma validateItems_returns:
  "(\<And>k it t. (k, it) \<in> set m \<Longrightarrow> t \<in> set (validations it) \<Longrightarrow>
      validateField H (value it) t (specs it) \<noteq> Inl TypeError) \<Longrightarrow>
   \<exists>a. validateItems H m errs = Inr a"
proof (induction m arbitrary: errs)
  case Nil
  then show ?case by simp
next
  case (Cons p m)
  obtain k0 it where p: "p = (k0, it)" by (cases p)
  obtain e1 where e1: "validateLoop H it (validations it) errs = Inr e1"
    using validateLoop_returns[of "validations it" H it errs] Cons.prems[of k0 it] p by auto
  have "\<exists>a. validateItems H m e = Inr a" for e
    using Cons.prems by (intro Cons.IH) auto
  with e1 p show ?case by auto
qed

lemma validate_returns_errors:
  "validate H s = Inr s1 \<longleftrightarrow> (\<exists>a. validateItems H (formObject s) (formObjectErrors s) = Inr a \<and> s1 = s\<lparr>formObjectErrors := a\<rparr>)"
  by (auto simp: validate_def split: sum.splits prod.splits)


section \<open>Repeated evaluation\<close>

text \<open>
  When two calls of \<open>validate\<close> in succession both return, the second returns the
  validator the first returned; and when no registered rule raises on its field's value,
  both calls do return.
\<close>

lemma validate_twice:
  "(validate H s = Inr s1 \<and> validate H s1 = Inr s2 \<longrightarrow> s2 = s1) \<and>
   ((\<forall>(k, it) \<in> set (formObject s). \<forall>t \<in> set (validations it).
        validateField H (value it) t (specs it) \<noteq> Inl TypeError) \<longrightarrow>
    (\<exists>s1. validate H s = Inr s1 \<and> validate H s1 = Inr s1))"
proof -
  have once: "s2 = s1" if "validate H s = Inr s1" "validate H s1 = Inr s2" for s1 s2
  proof -
    from that(1) obtain a where a: "validateItems H (formObject s) (formObjectErrors s) = Inr a"
      and s1: "s1 = s\<lparr>formObjectErrors := a\<rparr>"
      by (auto simp: validate_returns_errors)
    from that(2) s1 obtain b where b: "validateItems H (formObject s) a = Inr b"
      and s2: "s2 = s1\<lparr>formObjectErrors := b\<rparr>"
      by (auto simp: validate_returns_errors)
    from a b have "b = a" by (rule validateItems_twice)
    with s1 s2 show ?thesis by simp
  qed
  have twice: "\<exists>s1. validate H s = Inr s1 \<and> validate H s1 = Inr s1"
    if nt: "\<forall>(k, it) \<in> set (formObject s). \<forall>t \<in> set (validations it).
        validateField H (value it) t (specs it) \<noteq> Inl TypeError"
  proof -
    have ret: "\<exists>a. validateItems H (formObject s) e = Inr a" for e
      using nt by (intro validateItems_returns) auto
    from ret obtain a where a: "validateItems H (formObject s) (formObjectErrors s) = Inr a"
      by blast
    from ret obtain b where b: "validateItems H (formObject s) a = Inr b"
      by blast
    from a b have "b = a" by (rule validateItems_twice)
    with a b show ?thesis by (simp add: validate_returns_errors)
  qed
  from once twice show ?thesis by blast
qed

lemma validate_twice_ageForm:
  "validate sampleHelpers (ageForm\<lparr>formObjectErrors := ageFormErrors\<rparr>) =
     Inr (ageForm\<lparr>formObjectErrors := ageFormErrors\<rparr>) \<and>
   getError ''age'' (ageForm\<lparr>formObjectErrors := ageFormErrors\<rparr>) =
     Some (specsError lessThanMinValue (noSpecs\<lparr>minValue := Some (Fin 18)\<rparr>))"
proof -
  have "\<forall>(k, it) \<in> set (formObject ageForm). \<forall>t \<in> set (validations it).
        validateField sampleHelpers (value it) t (specs it) \<noteq> Inl TypeError"
    by (simp add: ageForm_def model_defs)
  with validate_twice[of sampleHelpers ageForm]
  obtain s1 where s1: "validate sampleHelpers ageForm = Inr s1" "validate sampleHelpers s1 = Inr s1"
    by blast
  from s1(1) have "s1 = ageForm\<lparr>formObjectErrors := ageFormErrors\<rparr>"
    by (simp add: ageForm_validate)
  with s1(2) show ?thesis by (simp add: getError_def ageFormErrors_def)
qed

text \<open>
  C4. Calling \<open>validate\<close> twice in succession does not yield the same error map as calling
  it once on \<open>{ undefined: 5, "": "x" }\<close> with \<open>valueRange\<close> up to 10, \<open>isDate\<close> and
  \<open>noWhitespace\<close> on \<open>undefined\<close> and \<open>required\<close> on the empty name. The first call stops
  on \<open>undefined\<close> after \<open>valueRange\<close> passes, writes \<open>empty\<close> under the key \<open>"undefined"\<close> for
  the item without a name, and returns. The second call finds that entry, goes on to
  \<open>isDate\<close>, writes \<open>invalidDate\<close> over it, and raises in \<open>noWhitespace\<close>.
\<close>

theorem validate_second_call_raises:
  "validate H sharedKeyForm =
     Inr (sharedKeyForm\<lparr>formObjectErrors := [''undefined'' \<mapsto> simpleError emptyCode]\<rparr>) \<and>
   validate H (sharedKeyForm\<lparr>formObjectErrors := [''undefined'' \<mapsto> simpleError emptyCode]\<rparr>) =
     Inl (TypeError,
       sharedKeyForm\<lparr>formObjectErrors := [''undefined'' \<mapsto> simpleError invalidDate]\<rparr>) \<and>
   simpleError invalidDate \<noteq> simpleError emptyCode"
proof (intro conjI)
  show "validate H sharedKeyForm =
     Inr (sharedKeyForm\<lparr>formObjectErrors := [''undefined'' \<mapsto> simpleError emptyCode]\<rparr>)"
    by (simp add: sharedKeyForm_def model_defs)
  show "validate H (sharedKeyForm\<lparr>formObjectErrors := [''undefined'' \<mapsto> simpleError emptyCode]\<rparr>) =
     Inl (TypeError,
       sharedKeyForm\<lparr>formObjectErrors := [''undefined'' \<mapsto> simpleError invalidDate]\<rparr>)"
    by (simp add: sharedKeyForm_def model_defs)
  show "simpleError invalidDate \<noteq> simpleError emptyCode"
    by (simp add: simpleError_def)
qed

section \<open>Rules that raise\<close>

lemma noWhitespace_raises_iff:
  "noWhitespace v = Inl TypeError \<longleftrightarrow> truthy v \<and> (\<forall>s. v \<noteq> JStr s)"
  by (cases v) (simp_all add: noWhitespace_def)

lemma validateField_raises_iff:
  "validateField H v t sp = Inl TypeError \<longleftrightarrow>
     t = ''noWhitespace'' \<and> truthy v \<and> (\<forall>s. v \<noteq> JStr s)"
  by (simp add: validateField_def noWhitespace_raises_iff)

text \<open>
  C3. The rule \<open>noWhitespace\<close> does not return a result for every stored value: a rule
  raises exactly when it is \<open>noWhitespace\<close> and the value is truthy and not a string. On
  the number 5 the call of \<open>trim\<close> raises, and \<open>validate\<close> raises with it.
\<close>

theorem noWhitespace_raises:
  "(validateField H v t sp = Inl TypeError \<longleftrightarrow>
      t = ''noWhitespace'' \<and> truthy v \<and> (\<forall>s. v \<noteq> JStr s)) \<and>
   validateField H (JNum (Fin 5)) ''noWhitespace'' sp = Inl TypeError \<and>
   validate H numberForm = Inl (TypeError, numberForm)"
proof (intro conjI)
  show "validateField H v t sp = Inl TypeError \<longleftrightarrow>
      t = ''noWhitespace'' \<and> truthy v \<and> (\<forall>s. v \<noteq> JStr s)"
    by (rule validateField_raises_iff)
  show "validateField H (JNum (Fin 5)) ''noWhitespace'' sp = Inl TypeError"
    by (simp add: validateField_def noWhitespace_def)
  show "validate H numberForm = Inl (TypeError, numberForm)"
    by (simp add: numberForm_def model_defs)
qed

section \<open>Order of evaluation\<close>

text \<open>
  C1. On \<open>{ a: 5 }\<close> with the rules \<open>isDate\<close> and \<open>textLength\<close> registered in this order,
  both rules fail, and after \<open>validate\<close> the error map holds the code of the second rule,
  \<open>invalidInput\<close>, not the code of the first, \<open>invalidDate\<close>. With a first rule that passes
  the loop stops, and a failing second rule is not reported.
\<close>

theorem validate_reports_later_failure:
  "validateField H (JNum (Fin 5)) ''isDate'' (noSpecs\<lparr>minLength := Some (Fin 3)\<rparr>) =
     Inr (Some (simpleError invalidDate)) \<and>
   validateField H (JNum (Fin 5)) ''textLength'' (noSpecs\<lparr>minLength := Some (Fin 3)\<rparr>) =
     Inr (Some (simpleError invalidInput)) \<and>
   validate H twoFailingForm =
     Inr (twoFailingForm\<lparr>formObjectErrors := [''a'' \<mapsto> simpleError invalidInput]\<rparr>) \<and>
   validateField H (JNum (Fin 5)) ''valueRange'' (noSpecs\<lparr>maxValue := Some (Fin 10)\<rparr>) =
     Inr None \<and>
   validateField H (JNum (Fin 5)) ''isDate'' (noSpecs\<lparr>maxValue := Some (Fin 10)\<rparr>) =
     Inr (Some (simpleError invalidDate)) \<and>
   validate H passThenFailForm = Inr passThenFailForm"
  by (simp add: twoFailingForm_def passThenFailForm_def model_defs)

section \<open>Custom validators\<close>

text \<open>
  C5. Registering a custom validator changes neither what \<open>validate\<close> does (it returns or
  raises as before, with the same error map) nor what \<open>getErrors\<close> and \<open>getError\<close>
  return: the custom rule is stored and never run.
\<close>

theorem addCustomValidator_unobserved:
  "validate H (addCustomValidator fs efs v s) =
     (case validate H s of
        Inl (e, s') \<Rightarrow> Inl (e, addCustomValidator fs efs v s')
      | Inr s' \<Rightarrow> Inr (addCustomValidator fs efs v s')) \<and>
   map_sum (map_prod id getErrors) getErrors (validate H (addCustomValidator fs efs v s)) =
     map_sum (map_prod id getErrors) getErrors (validate H s) \<and>
   getErrors (addCustomValidator fs efs v s) = getErrors s \<and>
   getError n (addCustomValidator fs efs v s) = getError n s \<and>
   formObject (addCustomValidator fs efs v s) = formObject s"
  by (simp add: validate_def addCustomValidator_def getErrors_def getError_def
      split: sum.splits prod.splits)

section \<open>Registration\<close>

text \<open>
  C9. \<open>addValidation\<close> with a rule kind outside the nine kinds of the enumeration leaves
  the validator as it is: no rule is appended and no specs are merged, for any field.
\<close>

theorem addValidation_unknown_kind:
  "t \<notin> {''required'', ''isDate'', ''noWhitespace'', ''validEmail'', ''strongPassword'',
         ''isPhoneNumber'', ''dateRange'', ''textLength'', ''valueRange''} \<Longrightarrow>
   addValidation fs t sp s = s"
  by (simp add: addValidation_def isValidType_def)

theorem addValidation_unknown_kind_witness:
  "addValidation [''name'', ''age''] ''minLength''
     (Some (noSpecs\<lparr>minLength := Some (Fin 3)\<rparr>)) ageForm = ageForm"
  using addValidation_unknown_kind[of "''minLength''" "[''name'', ''age'']"
      "Some (noSpecs\<lparr>minLength := Some (Fin 3)\<rparr>)" ageForm]
  by simp

section \<open>Range rules\<close>

text \<open>
  C10. A lower bound of 0 is treated as no lower bound: \<open>valueRange\<close> with \<open>minValue\<close> 0 and
  \<open>textLength\<close> with \<open>minLength\<close> 0 give the result they give without the bound, so every
  number, negative ones included, passes \<open>valueRange\<close> with the specs \<open>{ minValue: 0 }\<close>,
  while -5 fails with \<open>{ minValue: 1 }\<close>.
\<close>

theorem zero_lower_bound_skipped:
  "validateField H v ''valueRange'' (sp\<lparr>minValue := Some (Fin 0)\<rparr>) =
     validateField H v ''valueRange'' (sp\<lparr>minValue := None\<rparr>) \<and>
   validateField H v ''textLength'' (sp\<lparr>minLength := Some (Fin 0)\<rparr>) =
     validateField H v ''textLength'' (sp\<lparr>minLength := None\<rparr>) \<and>
   validateField H (JNum n) ''valueRange'' (noSpecs\<lparr>minValue := Some (Fin 0)\<rparr>) = Inr None \<and>
   validateField H (JNum (Fin (- 5))) ''valueRange'' (noSpecs\<lparr>minValue := Some (Fin 0)\<rparr>) =
     Inr None \<and>
   validateField H (JNum (Fin (- 5))) ''valueRange'' (noSpecs\<lparr>minValue := Some (Fin 1)\<rparr>) =
     Inr (Some (specsError lessThanMinValue (noSpecs\<lparr>minValue := Some (Fin 1)\<rparr>)))"
  by (simp add: validateField_def valueRange_def textLength_def truthyBound_def noSpecs_def
      split: jsval.splits)

section \<open>Entries that \<open>validate\<close> leaves alone\<close>

lemma validateLoop_all_pass:
  "(\<And>t. t \<in> set ts \<Longrightarrow> validateField H (value it) t (specs it) = Inr None) \<Longrightarrow>
   validateLoop H it ts errs = Inr errs"
proof (induction ts)
  case Nil
  then show ?case by simp
next
  case (Cons t ts)
  have fe: "validateField H (value it) t (specs it) = Inr None"
    using Cons.prems by simp
  have "validateLoop H it ts errs = Inr errs"
    using Cons.prems by (intro Cons.IH) simp
  then show ?case unfolding validateLoop_Cons[OF fe]
    by (simp add: recordError_def isEmptyError_def)
qed

lemma validateItems_untouched:
  "(\<And>k it t. (k, it) \<in> set m \<Longrightarrow> errorKey it = f \<Longrightarrow> t \<in> set (validations it) \<Longrightarrow>
      validateField H (value it) t (specs it) = Inr None) \<Longrightarrow>
   written (validateItems H m errs) f = errs f"
proof (induction m arbitrary: errs)
  case Nil
  then show ?case by simp
next
  case (Cons p m)
  obtain k0 it where p: "p = (k0, it)" by (cases p)
  have rest: "written (validateItems H m e) f = e f" for e
    using Cons.prems by (intro Cons.IH) auto
  have here: "written (validateLoop H it (validations it) errs) f = errs f"
  proof (cases "errorKey it = f")
    case True
    then have "validateLoop H it (validations it) errs = Inr errs"
      using Cons.prems[of k0 it] p by (intro validateLoop_all_pass) simp
    then show ?thesis by simp
  next
    case False
    then show ?thesis using validateLoop_frame[of f it H "validations it" errs] by simp
  qed
  show ?case
  proof (cases "validateLoop H it (validations it) errs")
    case (Inl x)
    with here p rest show ?thesis by (cases x) auto
  next
    case (Inr e1)
    with here p rest show ?thesis by auto
  qed
qed

lemma written_validate:
  "formObjectErrors (written (validate H s)) =
     written (validateItems H (formObject s) (formObjectErrors s))"
  by (auto simp: validate_def split: sum.splits prod.splits)




section \<open>Fields that are not in the form object\<close>

lemma addValidationField_keys:
  "map_of (addValidationField t sp g m) f = None \<longleftrightarrow> map_of m f = None"
  by (simp add: addValidationField_def map_of_eq_None_iff dom_map_entry)

lemma fold_addValidationField_keys:
  "map_of (fold (addValidationField t sp) fs m) f = None \<longleftrightarrow> map_of m f = None"
  by (induction fs arbitrary: m) (simp_all add: addValidationField_keys)

lemma fold_addValidationField_unknown:
  "map_of m f = None \<Longrightarrow>
   fold (addValidationField t sp) fs m = fold (addValidationField t sp) (removeAll f fs) m"
proof (induction fs arbitrary: m)
  case Nil
  then show ?case by simp
next
  case (Cons g fs)
  show ?case
  proof (cases "g = f")
    case True
    with Cons show ?thesis by (simp add: addValidationField_def)
  next
    case False
    with Cons show ?thesis by (simp add: addValidationField_keys)
  qed
qed

lemma fold_addValidationField_none:
  "map_of m f = None \<Longrightarrow> removeAll f fs = [] \<Longrightarrow> fold (addValidationField t sp) fs m = m"
  using fold_addValidationField_unknown[of m f t sp fs] by simp

lemma addValidation_unknown:
  assumes "map_of (formObject s) f = None"
  shows "addValidation fs t sp s = addValidation (removeAll f fs) t sp s"
proof (cases "removeAll f fs = []")
  case True
  with assms have "fold (addValidationField t sp) fs (formObject s) = formObject s"
    by (rule fold_addValidationField_none)
  with True show ?thesis by (simp add: addValidation_def)
next
  case False
  then have "fs \<noteq> []" by auto
  with False assms show ?thesis
    using fold_addValidationField_unknown[of "formObject s" f t sp fs]
    by (simp add: addValidation_def)
qed

lemma addValidation_keys:
  "map_of (formObject (addValidation fs t sp s)) f = None \<longleftrightarrow> map_of (formObject s) f = None"
  by (simp add: addValidation_def fold_addValidationField_keys)

lemma name_register: "name (register t sp it) = name it"
  by (simp add: register_def Let_def)

lemma set_map_entry:
  "(k', v') \<in> set (AList.map_entry k g m) \<Longrightarrow>
   (k', v') \<in> set m \<or> (\<exists>v. (k', v) \<in> set m \<and> v' = g v)"
  by (induction m) (auto split: if_splits)

lemma addValidationField_named:
  "(\<And>k it. (k, it) \<in> set m \<Longrightarrow> name it = Some k) \<Longrightarrow>
   (k, it) \<in> set (addValidationField t sp g m) \<Longrightarrow> name it = Some k"
  by (auto simp: addValidationField_def name_register split: if_splits dest!: set_map_entry)

lemma fold_addValidationField_named:
  "(\<And>k it. (k, it) \<in> set m \<Longrightarrow> name it = Some k) \<Longrightarrow>
   (k, it) \<in> set (fold (addValidationField t sp) fs m) \<Longrightarrow> name it = Some k"
proof (induction fs arbitrary: m)
  case Nil
  then show ?case by simp
next
  case (Cons g fs)
  have "name i = Some j" if "(j, i) \<in> set (addValidationField t sp g m)" for j i
    using Cons.prems(1) that by (rule addValidationField_named)
  then show ?case using Cons.prems(2) by (intro Cons.IH[of "addValidationField t sp g m"]) simp_all
qed

lemma addValidation_named:
  "(\<And>k it. (k, it) \<in> set (formObject s) \<Longrightarrow> name it = Some k) \<Longrightarrow>
   (k, it) \<in> set (formObject (addValidation fs t sp s)) \<Longrightarrow> name it = Some k"
  using fold_addValidationField_named[of "formObject s" k it t sp fs]
  by (auto simp: addValidation_def split: if_splits)

lemma map_of_addValidationField:
  "map_of (addValidationField t sp h m) g =
     (if h = g then map_option (register t sp) (map_of m g) else map_of m g)"
  by (auto simp: addValidationField_def map_of_map_entry split: option.splits)

lemma map_of_fold_addValidationField:
  "map_of (fold (addValidationField t sp) fs m) g =
     map_option (register t sp ^^ count_list fs g) (map_of m g)"
proof (induction fs arbitrary: m)
  case Nil
  then show ?case by (simp add: option.map_ident)
next
  case (Cons h fs)
  show ?case
  proof (cases "h = g")
    case True
    then show ?thesis
      by (simp add: Cons.IH map_of_addValidationField option.map_comp funpow_swap1 o_def)
  next
    case False
    then show ?thesis by (simp add: Cons.IH map_of_addValidationField)
  qed
qed

lemma map_of_addValidation:
  "isValidType t \<Longrightarrow>
   map_of (formObject (addValidation fs t sp s)) g =
     map_option (register t sp ^^ count_list fs g) (map_of (formObject s) g)"
proof -
  assume "isValidType t"
  then have "t \<noteq> []" by (auto simp: isValidType_def)
  with \<open>isValidType t\<close> show ?thesis
    by (cases "fs = []")
      (simp_all add: addValidation_def map_of_fold_addValidationField option.map_ident option.map_id)
qed

lemma keys_addValidationField: "map fst (addValidationField t sp h m) = map fst m"
proof -
  have "map fst (AList.map_entry h r m) = map fst m" for r :: "ValidatorModelItem \<Rightarrow> ValidatorModelItem"
    by (induction m) auto
  then show ?thesis by (simp add: addValidationField_def)
qed

lemma keys_addValidation: "map fst (formObject (addValidation fs t sp s)) = map fst (formObject s)"
proof -
  have "map fst (fold (addValidationField t sp) fs m) = map fst m" for m
    by (induction fs arbitrary: m) (simp_all add: keys_addValidationField)
  then show ?thesis by (simp add: addValidation_def)
qed

text \<open>
  C8 as stated fails: in \<open>{ "": "x" }\<close> the field \<open>undefined\<close> is not a field of the record,
  and it has no item after \<open>addValidation(["undefined", ""], "required")\<close>; but the item of
  the empty name has no name and the value \<open>null\<close>, so \<open>required\<close> fails on it and
  \<open>validate\<close> writes the error under the key \<open>"undefined"\<close>.
\<close>

theorem addValidation_unknown_field_counterexample:
  "map_of (formObject emptyNameForm) ''undefined'' = None \<and>
   formObjectErrors emptyNameForm ''undefined'' = None \<and>
   map_of (formObject (addValidation [''undefined'', ''''] ''required'' None emptyNameForm))
     ''undefined'' = None \<and>
   validate sampleHelpers (addValidation [''undefined'', ''''] ''required'' None emptyNameForm) =
     Inr ((addValidation [''undefined'', ''''] ''required'' None emptyNameForm)
       \<lparr>formObjectErrors := [''undefined'' \<mapsto> simpleError emptyCode]\<rparr>)"
  by (simp add: emptyNameForm_def model_defs)

text \<open>
  C8, amended. A field name \<open>f\<close> that is not a key of the form object is dropped from an
  \<open>addValidation\<close> call: the call does what it does without that name, the field has no
  item afterwards, hence neither rules nor specs, and \<open>validate\<close> behaves as if the name
  had not been given. The other fields are registered as usual: the keys stay as they
  are, and with a valid kind the item of every field \<open>g\<close> gets the rule appended and the
  specs merged once for each time the call names \<open>g\<close>. When every item carries its key as
  its name (no field has the empty name) and \<open>f\<close> has no entry in the error map,
  \<open>validate\<close> leaves \<open>f\<close> without one.
\<close>

theorem addValidation_unknown_field:
  "map_of (formObject s) f = None \<Longrightarrow>
   addValidation fs t sp s = addValidation (removeAll f fs) t sp s \<and>
   map_of (formObject (addValidation fs t sp s)) f = None \<and>
   map fst (formObject (addValidation fs t sp s)) = map fst (formObject s) \<and>
   (isValidType t \<longrightarrow>
      map_of (formObject (addValidation fs t sp s)) g =
        map_option (register t sp ^^ count_list fs g) (map_of (formObject s) g)) \<and>
   validate H (addValidation fs t sp s) = validate H (addValidation (removeAll f fs) t sp s) \<and>
   ((\<forall>(k, it) \<in> set (formObject s). name it = Some k) \<and> formObjectErrors s f = None \<longrightarrow>
      formObjectErrors (written (validate H (addValidation fs t sp s))) f = None)"
proof -
  assume unknown: "map_of (formObject s) f = None"
  let ?s = "addValidation fs t sp s"
  have same: "?s = addValidation (removeAll f fs) t sp s"
    using unknown by (rule addValidation_unknown)
  have absent: "map_of (formObject ?s) f = None"
    using unknown by (simp add: addValidation_keys)
  have keys: "map fst (formObject ?s) = map fst (formObject s)"
    by (rule keys_addValidation)
  have registered: "map_of (formObject ?s) g =
        map_option (register t sp ^^ count_list fs g) (map_of (formObject s) g)"
    if "isValidType t"
    using that by (rule map_of_addValidation)
  have "formObjectErrors (written (validate H ?s)) f = None"
    if named: "\<forall>(k, it) \<in> set (formObject s). name it = Some k"
      and clean: "formObjectErrors s f = None"
  proof -
    have key: "errorKey it \<noteq> f" if "(k, it) \<in> set (formObject ?s)" for k it
    proof -
      have "name it = Some k" using named that by (intro addValidation_named[of s k it fs t sp]) auto
      moreover have "k \<noteq> f" using absent that by (force simp: map_of_eq_None_iff)
      ultimately show ?thesis by (simp add: errorKey_def)
    qed
    have "written (validateItems H (formObject ?s) (formObjectErrors ?s)) f = formObjectErrors ?s f"
      using key by (intro validateItems_untouched) auto
    moreover have "formObjectErrors ?s = formObjectErrors s"
      by (simp add: addValidation_def)
    ultimately show ?thesis using clean by (simp add: written_validate)
  qed
  with same absent keys registered show ?thesis by simp
qed

theorem addValidation_unknown_field_witness:
  "addValidation [''b'', ''a''] ''required'' None (newFormValidator [(''a'', JStr [])]) =
     addValidation [''a''] ''required'' None (newFormValidator [(''a'', JStr [])]) \<and>
   map_of (formObject (addValidation [''b'', ''a''] ''required'' None
     (newFormValidator [(''a'', JStr [])]))) ''b'' = None \<and>
   map_of (formObject (addValidation [''b'', ''a''] ''required'' None
     (newFormValidator [(''a'', JStr [])]))) ''a'' =
     Some \<lparr>name = Some ''a'', value = JStr [], specs = noSpecs, validations = [''required'']\<rparr> \<and>
   formObjectErrors (written (validate sampleHelpers
     (addValidation [''b'', ''a''] ''required'' None (newFormValidator [(''a'', JStr [])])))) ''b'' =
     None"
proof -
  have unknown: "map_of (formObject (newFormValidator [(''a'', JStr [])])) ''b'' = None"
    by (simp add: model_defs)
  have named: "\<forall>(k, it) \<in> set (formObject (newFormValidator [(''a'', JStr [])])). name it = Some k"
    by (simp add: model_defs)
  have clean: "formObjectErrors (newFormValidator [(''a'', JStr [])]) ''b'' = None"
    by (simp add: model_defs)
  have kind: "isValidType ''required''"
    by (simp add: isValidType_def)
  have rest: "removeAll ''b'' [''b'', ''a''] = [''a'']"
    by simp
  have item: "map_option (register ''required'' None ^^ count_list [''b'', ''a''] ''a'')
      (map_of (formObject (newFormValidator [(''a'', JStr [])])) ''a'') =
     Some \<lparr>name = Some ''a'', value = JStr [], specs = noSpecs, validations = [''required'']\<rparr>"
    by (simp add: model_defs)
  note addValidation_unknown_field[where s = "newFormValidator [(''a'', JStr [])]" and f = "''b''"
      and fs = "[''b'', ''a'']" and t = "''required''" and sp = None and H = sampleHelpers
      and g = "''a''", OF unknown]
  from this[unfolded rest item] named clean kind show ?thesis by blast
qed

section \<open>Merging of specs\<close>

















section \<open>Minimum before maximum\<close>






end
